theory Spec2Isabelle
  imports Complex_Main "HOL-Library.Multiset" "HOL-Library.Char_ord" "HOL-Library.List_Lexorder"
begin

section \<open>The rail dataset of \<^verbatim>\<open>model/wcid_keras/dataset/dataset.py\<close>\<close>

subsection \<open>Errors\<close>

text \<open>
  Every \<^verbatim>\<open>raise\<close> of the source, and every exception of the Python run time and of the
  libraries that the modelled code can meet, is a value. The payload of a
  \<^verbatim>\<open>ValueError\<close> records which message the source builds and the values it formats into it.
\<close>

datatype value_error =
    ResolutionTooSmall "int \<times> int"
  | AmountMismatch nat nat
  | NameMismatch string string
  | NotEnoughValuesToUnpack
  | BackgroundPathNone
  | NotTwoClasses nat "real list"
  | ZeroSizeReduction
  | AxesMismatch
  | NeedOneArray
  | ShapesDiffer

datatype error =
    ValueError value_error
  | IndexError
  | KeyError string
  | TypeError
  | ZeroDivisionError
  | OSError

subsection \<open>Python built-ins\<close>

text \<open>\<^verbatim>\<open>range(a, b)\<close> over Python's unbounded integers.\<close>

definition py_range :: "int \<Rightarrow> int \<Rightarrow> int list" where
  "py_range a b = [a..b - 1]"

text \<open>
  Reading position \<open>i\<close> of a tuple. Positions from \<open>0\<close> up to the length are read
  directly; the positions \<open>-1\<close> down to minus the length are read from the back; every
  other position raises \<^verbatim>\<open>IndexError\<close>.
\<close>

definition py_index :: "'a list \<Rightarrow> int \<Rightarrow> error + 'a" where
  "py_index xs i =
     (if 0 \<le> i \<and> i < int (length xs) then Inr (xs ! nat i)
      else if i < 0 \<and> - int (length xs) \<le> i then Inr (xs ! nat (int (length xs) + i))
      else Inl IndexError)"

text \<open>Floor division of integers; HOL's \<open>div\<close> on \<open>int\<close> rounds towards minus infinity as
  Python's \<^verbatim>\<open>//\<close> does, and a zero divisor raises.\<close>

definition py_floordiv :: "int \<Rightarrow> int \<Rightarrow> error + int" where
  "py_floordiv a b = (if b = 0 then Inl ZeroDivisionError else Inr (a div b))"

subsection \<open>Paths\<close>

text \<open>
  \<^verbatim>\<open>os.path.join\<close> of two components on a POSIX system: an absolute second component
  replaces the first, otherwise the two are joined by one separator.
\<close>

definition path_join :: "string \<Rightarrow> string \<Rightarrow> string" where
  "path_join a b =
     (if b \<noteq> [] \<and> hd b = CHR ''/'' then b
      else if a = [] \<or> last a = CHR ''/'' then a @ b
      else a @ ''/'' @ b)"

text \<open>
  \<^verbatim>\<open>pathlib.Path(p).name\<close> for a path that names a file (what \<^verbatim>\<open>glob\<close> returns for a
  pattern ending in \<^verbatim>\<open>*.ext\<close>): the text after the last separator.
\<close>

definition path_name :: "string \<Rightarrow> string" where
  "path_name p = rev (takeWhile (\<lambda>c. c \<noteq> CHR ''/'') (rev p))"

text \<open>
  \<^verbatim>\<open>pathlib.Path(p).stem\<close>: with \<open>i\<close> the position of the last dot of the name, the name
  up to \<open>i\<close> when \<open>0 < i < len(name) - 1\<close>, and the whole name otherwise (no dot, a leading
  dot only, or a trailing dot).
\<close>

definition stem :: "string \<Rightarrow> string" where
  "stem p =
     (let name = path_name p;
          i = length name - Suc (length (takeWhile (\<lambda>c. c \<noteq> CHR ''.'') (rev name)))
      in if CHR ''.'' \<in> set name \<and> 0 < i \<and> Suc i < length name then take i name else name)"

subsection \<open>Interpreter state: the heap of dictionaries and the global random generator\<close>

text \<open>
  The transform probabilities are held in a Python \<^verbatim>\<open>dict\<close>, a mutable object that the
  data set stores by reference. Dictionaries therefore live in a heap, addressed by
  references. A value of the dictionary is a probability or, for \<^verbatim>\<open>RotateLimit\<close>, a pair of
  angles.
\<close>

type_synonym ref = nat

datatype tf_val = Prob real | Limit real real

type_synonym pydict = "string \<rightharpoonup> tf_val"

text \<open>
  \<^verbatim>\<open>random.shuffle\<close> draws from the process-wide generator of the \<^verbatim>\<open>random\<close> module.
  The generator is the tape of its future raw outputs; once the tape is used up every draw
  is \<open>0\<close>.
\<close>

type_synonym rng = "nat list"

record pystate =
  heap :: "ref \<rightharpoonup> pydict"
  rng :: rng

text \<open>\<^verbatim>\<open>randbelow(n)\<close>: a number below \<open>n\<close>, and the generator advanced.\<close>

definition randbelow :: "nat \<Rightarrow> rng \<Rightarrow> nat \<times> rng" where
  "randbelow n g = (case g of [] \<Rightarrow> (0, []) | r # g' \<Rightarrow> (r mod n, g'))"

text \<open>
  \<^verbatim>\<open>random.shuffle(x)\<close> is the Fisher-Yates loop of the standard library:
  \<^verbatim>\<open>for i in reversed(range(1, len(x))): j = randbelow(i + 1); x[i], x[j] = x[j], x[i]\<close>.
\<close>

fun shuffle_loop :: "nat list \<Rightarrow> 'a list \<Rightarrow> rng \<Rightarrow> 'a list \<times> rng" where
  "shuffle_loop [] x g = (x, g)"
| "shuffle_loop (i # is) x g =
     (case randbelow (i + 1) g of (j, g') \<Rightarrow> shuffle_loop is (x[i := x ! j, j := x ! i]) g')"

definition shuffle :: "'a list \<Rightarrow> rng \<Rightarrow> 'a list \<times> rng" where
  "shuffle x g = shuffle_loop (rev [1..<length x]) x g"

text \<open>
  \<^verbatim>\<open>a, b = zip(*pairs)\<close>: transposing a list of pairs gives the tuple of first components
  and the tuple of second components; transposing the empty list gives nothing, and the
  unpacking into two names raises \<^verbatim>\<open>ValueError\<close>.
\<close>

definition unzip2 :: "('a \<times> 'b) list \<Rightarrow> error + ('a list \<times> 'b list)" where
  "unzip2 ps = (if ps = [] then Inl (ValueError NotEnoughValuesToUnpack)
                else Inr (map fst ps, map snd ps))"


text \<open>\<^verbatim>\<open>if not k in d: d[k] = v\<close>, on the dictionary object that \<open>r\<close> refers to.\<close>

definition set_if_absent :: "ref \<Rightarrow> string \<Rightarrow> tf_val \<Rightarrow> pystate \<Rightarrow> error + pystate" where
  "set_if_absent r k v s =
     (case heap s r of None \<Rightarrow> Inl TypeError
      | Some d \<Rightarrow> (if k \<in> dom d then Inr s else Inr (s\<lparr>heap := (heap s)(r \<mapsto> d(k \<mapsto> v))\<rparr>)))"

subsection \<open>Arrays and images\<close>

text \<open>
  A numpy array is its element type, its shape and its elements in row-major order. The
  elements are modelled as exact reals: the casts of this program are exact on every 8-bit
  value, so on \<open>0\<close> and \<open>1\<close>; the rounding of other values is not modelled.
\<close>

datatype dtype = Bool | UInt8 | UInt16 | Int32 | Float32 | Float64

record ndarray =
  dtype :: dtype
  shape :: "nat list"
  data :: "real list"













text \<open>
  A decoded PIL image: its size \<open>(width, height)\<close>, its number of bands, the element type
  its mode converts to, and its pixels in row-major order.
\<close>

record pil_image =
  im_size :: "int \<times> int"
  im_bands :: nat
  im_dtype :: dtype
  im_pixels :: "real list"


subsection \<open>The libraries and the file system\<close>

text \<open>The list of transforms that the source hands to \<^verbatim>\<open>A.Compose\<close>.\<close>

datatype transform =
    RandomResizedCrop int int real "real \<times> real"
  | HorizontalFlip tf_val
  | RandomBrightnessContrast tf_val
  | Rotate tf_val tf_val
  | MotionBlur bool tf_val "int \<times> int"

text \<open>
  What the program calls but does not define is a parameter of the model:
  \<^item> \<open>glob\<close>: the paths that match a pattern;
  \<^item> \<open>image_open\<close>: \<^verbatim>\<open>Image.open\<close>, the decoded file or the error of a missing or
    undecodable one;
  \<^item> \<open>resample\<close>: the pixels that \<^verbatim>\<open>Image.resize\<close> computes for a new size;
  \<^item> \<open>augment_images\<close>: the background swap of the sibling module \<^verbatim>\<open>augment\<close>, called
    with the image, the mask, the background directory, its extension and a probability;
  \<^item> \<open>compose_apply\<close>: applying the composed albumentations transforms to an image and
    its mask.
  The two augmentations draw random numbers, so they take and return the generator.
\<close>

record env =
  glob :: "string \<Rightarrow> string list"
  image_open :: "string \<Rightarrow> error + pil_image"
  resample :: "pil_image \<Rightarrow> int \<times> int \<Rightarrow> real list"
  augment_images ::
    "ndarray \<Rightarrow> ndarray \<Rightarrow> string \<Rightarrow> string \<Rightarrow> tf_val \<Rightarrow> rng \<Rightarrow> (error + ndarray) \<times> rng"
  compose_apply ::
    "transform list \<Rightarrow> ndarray \<Rightarrow> ndarray \<Rightarrow> rng \<Rightarrow> (error + ndarray \<times> ndarray) \<times> rng"


subsection \<open>The data set object and its constructor\<close>

record dataset =
  imgs_pth :: string
  msks_pth :: string
  bg_dir_pth :: "string option"
  res :: "int \<times> int"
  img_ftype :: string
  msk_ftype :: string
  batch_size :: int
  transforms :: bool
  tfs_prb :: ref
  img_pths :: "string list"
  msk_pths :: "string list"

text \<open>
  The arguments of \<^verbatim>\<open>__init__\<close>. \<open>arg_tfs_prb = None\<close> is a call that leaves \<^verbatim>\<open>tfs_prb\<close>
  out; \<open>arg_bg_dir_pth = None\<close> is Python's \<^verbatim>\<open>None\<close>.
\<close>

record init_args =
  arg_imgs_pth :: string
  arg_msks_pth :: string
  arg_res :: "int \<times> int"
  arg_img_ftype :: string
  arg_msk_ftype :: string
  arg_batch_size :: int
  arg_transforms :: bool
  arg_tfs_prb :: "ref option"
  arg_bg_dir_pth :: "string option"

text \<open>The call \<^verbatim>\<open>RailDataset(imgs_pth, msks_pth)\<close>, every other parameter at its default.\<close>

definition default_args :: "string \<Rightarrow> string \<Rightarrow> init_args" where
  "default_args imgs msks =
     \<lparr>arg_imgs_pth = imgs, arg_msks_pth = msks, arg_res = (8, 8), arg_img_ftype = ''png'',
      arg_msk_ftype = ''png'', arg_batch_size = 1, arg_transforms = True,
      arg_tfs_prb = None, arg_bg_dir_pth = None\<rparr>"

text \<open>
  The default \<^verbatim>\<open>tfs_prb: Dict = {}\<close> is evaluated once, when the \<^verbatim>\<open>def\<close> statement runs:
  it is one dictionary object, at a fixed reference, empty in the state in which the class
  has just been defined.
\<close>

definition default_tfs_prb :: ref where
  "default_tfs_prb = 0"

definition state_at_import :: "rng \<Rightarrow> pystate" where
  "state_at_import g = \<lparr>heap = [default_tfs_prb \<mapsto> Map.empty], rng = g\<rparr>"

text \<open>The standard transformation parameters, in the order the source sets them.\<close>

definition tfs_defaults :: "(string \<times> tf_val) list" where
  "tfs_defaults =
     [(''HorizontalFlip'', Prob 0.5),
      (''RandomBrightnessContrast'', Prob 0.2),
      (''Rotate'', Prob 0.9),
      (''RotateLimit'', Limit (- 2.5) 2.5),
      (''MotionBlur'', Prob 0.1),
      (''BackgroundSwap'', Prob 0.9)]"

fun set_defaults :: "ref \<Rightarrow> (string \<times> tf_val) list \<Rightarrow> pystate \<Rightarrow> error + pystate" where
  "set_defaults r [] s = Inr s"
| "set_defaults r ((k, v) # kvs) s =
     (case set_if_absent r k v s of Inl e \<Rightarrow> Inl e | Inr s' \<Rightarrow> set_defaults r kvs s')"

text \<open>The loop over the aligned pairs that compares the stems of image and mask.\<close>

fun check_names :: "(string \<times> string) list \<Rightarrow> error + unit" where
  "check_names [] = Inr ()"
| "check_names ((img_pth, msk_pth) # rest) =
     (if stem img_pth \<noteq> stem msk_pth
      then Inl (ValueError (NameMismatch (stem img_pth) (stem msk_pth)))
      else check_names rest)"

text \<open>Collect the paths of one directory and sort them.\<close>

definition collect_paths :: "env \<Rightarrow> string \<Rightarrow> string \<Rightarrow> string list" where
  "collect_paths E dir ftype = sort (glob E (path_join dir (''*.'' @ ftype)))"

text \<open>
  \<^verbatim>\<open>RailDataset.__init__\<close>. The result is the constructed object, or the exception that
  leaves the constructor; the state is returned in both cases.
\<close>

definition RailDataset_init :: "env \<Rightarrow> init_args \<Rightarrow> pystate \<Rightarrow> (error + dataset) \<times> pystate" where
  "RailDataset_init E a s =
     (let tfs = (case arg_tfs_prb a of None \<Rightarrow> default_tfs_prb | Some r \<Rightarrow> r);
          found_imgs = collect_paths E (arg_imgs_pth a) (arg_img_ftype a);
          found_msks = collect_paths E (arg_msks_pth a) (arg_msk_ftype a);
          sh = shuffle (zip found_imgs found_msks) (rng s);
          s1 = s\<lparr>rng := snd sh\<rparr>
      in case unzip2 (fst sh) of
           Inl e \<Rightarrow> (Inl e, s1)
         | Inr (imgs, msks) \<Rightarrow>
             if fst (arg_res a) < 1 \<or> snd (arg_res a) < 1
             then (Inl (ValueError (ResolutionTooSmall (arg_res a))), s1)
             else if \<not> length imgs = length msks
             then (Inl (ValueError (AmountMismatch (length imgs) (length msks))), s1)
             else (case check_names (zip imgs msks) of
                     Inl e \<Rightarrow> (Inl e, s1)
                   | Inr _ \<Rightarrow>
                       (case set_defaults tfs tfs_defaults s1 of
                          Inl e \<Rightarrow> (Inl e, s1)
                        | Inr s2 \<Rightarrow>
                            (Inr \<lparr>imgs_pth = arg_imgs_pth a, msks_pth = arg_msks_pth a,
                                  bg_dir_pth = arg_bg_dir_pth a, res = arg_res a,
                                  img_ftype = arg_img_ftype a, msk_ftype = arg_msk_ftype a,
                                  batch_size = arg_batch_size a,
                                  transforms = arg_transforms a, tfs_prb = tfs,
                                  img_pths = imgs, msk_pths = msks\<rparr>, s2))))"

text \<open>\<^verbatim>\<open>RailDataset.__len__\<close>.\<close>

definition RailDataset_len :: "dataset \<Rightarrow> error + int" where
  "RailDataset_len ds = py_floordiv (int (length (img_pths ds))) (batch_size ds)"

text \<open>\<^verbatim>\<open>RailDataset.on_epoch_end\<close>.\<close>

definition on_epoch_end :: "dataset \<Rightarrow> pystate \<Rightarrow> (error + dataset) \<times> pystate" where
  "on_epoch_end ds s =
     (let sh = shuffle (zip (img_pths ds) (msk_pths ds)) (rng s);
          s1 = s\<lparr>rng := snd sh\<rparr>
      in case unzip2 (fst sh) of
           Inl e \<Rightarrow> (Inl e, s1)
         | Inr (imgs, msks) \<Rightarrow> (Inr (ds\<lparr>img_pths := imgs, msk_pths := msks\<rparr>), s1))"

subsection \<open>Fetching a batch\<close>









subsection \<open>An invariant of the object and an assumption on the libraries\<close>

text \<open>
  The alignment of the two path tuples: equal length, and at every position the stem of
  the image path is the stem of the mask path.
\<close>

definition paths_aligned :: "dataset \<Rightarrow> bool" where
  "paths_aligned ds =
     (length (img_pths ds) = length (msk_pths ds)
      \<and> (\<forall>i<length (img_pths ds). stem (img_pths ds ! i) = stem (msk_pths ds ! i)))"


subsection \<open>A small corpus to run the model on\<close>

text \<open>
  Four images \<^verbatim>\<open>i/a.png\<close> to \<^verbatim>\<open>i/d.png\<close> with their masks \<^verbatim>\<open>m/a.tif\<close> to
  \<^verbatim>\<open>m/d.tif\<close>. Every image decodes to one RGB pixel, every mask to two pixels of the
  32-bit floating-point mode that TIFF files can hold; resizing repeats the pixels of its
  input, and both augmentations hand their input back.
\<close>

definition ex_glob :: "string \<Rightarrow> string list" where
  "ex_glob pat =
     (if pat = ''i/*.png'' then [''i/b.png'', ''i/a.png'', ''i/d.png'', ''i/c.png'']
      else if pat = ''m/*.tif'' then [''m/d.tif'', ''m/b.tif'', ''m/a.tif'', ''m/c.tif'']
      else [])"

definition ex_open :: "string \<Rightarrow> error + pil_image" where
  "ex_open p =
     (if p \<noteq> [] \<and> hd p = CHR ''i''
      then Inr \<lparr>im_size = (1, 1), im_bands = 3, im_dtype = UInt8, im_pixels = [255, 0, 51]\<rparr>
      else Inr \<lparr>im_size = (2, 1), im_bands = 1, im_dtype = Float32, im_pixels = [1 / 2, 1]\<rparr>)"

definition ex_resample :: "pil_image \<Rightarrow> int \<times> int \<Rightarrow> real list" where
  "ex_resample img r =
     map (\<lambda>k. im_pixels img ! (k mod length (im_pixels img)))
       [0..<nat (fst r) * nat (snd r) * im_bands img]"

definition ex_env :: env where
  "ex_env =
     \<lparr>glob = ex_glob, image_open = ex_open, resample = ex_resample,
      augment_images = (\<lambda>image_arr mask_arr bg ext p g. (Inr image_arr, g)),
      compose_apply = (\<lambda>tf image_arr mask_arr g. (Inr (image_arr, mask_arr), g))\<rparr>"

definition ex_args :: init_args where
  "ex_args = (default_args ''i'' ''m'')
     \<lparr>arg_res := (3, 2), arg_msk_ftype := ''tif'', arg_batch_size := 2,
      arg_transforms := False\<rparr>"

definition ex_state :: pystate where
  "ex_state = state_at_import [1, 0, 3]"

definition ex_dataset :: dataset where
  "ex_dataset =
     \<lparr>imgs_pth = ''i'', msks_pth = ''m'', bg_dir_pth = None, res = (3, 2),
      img_ftype = ''png'', msk_ftype = ''tif'', batch_size = 2, transforms = False,
      tfs_prb = default_tfs_prb,
      img_pths = [''i/c.png'', ''i/d.png'', ''i/a.png'', ''i/b.png''],
      msk_pths = [''m/c.tif'', ''m/d.tif'', ''m/a.tif'', ''m/b.tif'']\<rparr>"

definition ex_state1 :: pystate where
  "ex_state1 = snd (RailDataset_init ex_env ex_args ex_state)"

text \<open>A caller that passes its own dictionary, held at reference \<open>1\<close>.\<close>

definition ex_caller_dict :: pydict where
  "ex_caller_dict = [''Rotate'' \<mapsto> Prob 0, ''Mixup'' \<mapsto> Prob 1]"

definition ex_caller_state :: pystate where
  "ex_caller_state = ex_state\<lparr>heap := (heap ex_state)(1 \<mapsto> ex_caller_dict)\<rparr>"

definition ex_caller_args :: init_args where
  "ex_caller_args = ex_args\<lparr>arg_tfs_prb := Some 1\<rparr>"

definition ex_caller_state1 :: pystate where
  "ex_caller_state1 = snd (RailDataset_init ex_env ex_caller_args ex_caller_state)"

text \<open>A corpus with one image more than there are masks.\<close>

definition ex_glob_mismatch :: "string \<Rightarrow> string list" where
  "ex_glob_mismatch pat =
     (if pat = ''i/*.png'' then [''i/b.png'', ''i/a.png'', ''i/c.png'']
      else if pat = ''m/*.tif'' then [''m/b.tif'', ''m/a.tif'']
      else [])"







section \<open>Properties\<close>

subsection \<open>Shuffling, unpacking and the name check\<close>

lemma randbelow_less: "fst (randbelow (Suc i) g) < Suc i"
  by (cases g) (simp_all add: randbelow_def)

lemma shuffle_loop_mset:
  "\<forall>i\<in>set is. i < length x \<Longrightarrow> mset (fst (shuffle_loop is x g)) = mset x"
proof (induction "is" arbitrary: x g)
  case Nil
  then show ?case by simp
next
  case (Cons i "is")
  obtain j g' where rb: "randbelow (i + 1) g = (j, g')"
    by (cases "randbelow (i + 1) g")
  have "j < Suc i"
    using randbelow_less [of i g] rb by simp
  with Cons.prems have ij: "i < length x" "j < length x"
    by auto
  have "mset (fst (shuffle_loop is (x[i := x ! j, j := x ! i]) g')) = mset (x[i := x ! j, j := x ! i])"
    using Cons.prems by (intro Cons.IH) simp
  also have "\<dots> = mset x"
    by (rule mset_swap [OF ij(2) ij(1)])
  finally show ?case
    using rb by simp
qed

lemma shuffle_mset: "mset (fst (shuffle x g)) = mset x"
  unfolding shuffle_def by (rule shuffle_loop_mset) simp

lemma shuffle_length: "length (fst (shuffle x g)) = length x"
  using shuffle_mset [of x g] by (metis size_mset)

lemma shuffle_set: "set (fst (shuffle x g)) = set x"
  using shuffle_mset [of x g] by (metis set_mset_mset)

lemma unzip2_Inr:
  "unzip2 ps = Inr (xs, ys) \<longleftrightarrow> ps \<noteq> [] \<and> xs = map fst ps \<and> ys = map snd ps"
  by (auto simp: unzip2_def)

lemma check_names_Inr:
  "check_names ps = Inr u \<longleftrightarrow> (\<forall>p\<in>set ps. stem (fst p) = stem (snd p))"
  by (induction ps rule: check_names.induct) auto


lemma init_success:
  assumes "RailDataset_init E a s = (Inr ds, s')"
  obtains ps where
    "ps \<noteq> []"
    "img_pths ds = map fst ps"
    "msk_pths ds = map snd ps"
    "\<forall>p\<in>set ps. stem (fst p) = stem (snd p)"
    "mset ps = mset (zip (collect_paths E (arg_imgs_pth a) (arg_img_ftype a))
                         (collect_paths E (arg_msks_pth a) (arg_msk_ftype a)))"
proof -
  let ?z = "zip (collect_paths E (arg_imgs_pth a) (arg_img_ftype a))
                (collect_paths E (arg_msks_pth a) (arg_msk_ftype a))"
  let ?ps = "fst (shuffle ?z (rng s))"
  from assms obtain imgs msks where
    u: "unzip2 ?ps = Inr (imgs, msks)" and
    c: "check_names (zip imgs msks) = Inr ()" and
    i: "img_pths ds = imgs" and m: "msk_pths ds = msks"
    by (auto simp: RailDataset_init_def Let_def split: sum.splits prod.splits if_splits)
  from u have ne: "?ps \<noteq> []" and im: "imgs = map fst ?ps" and mk: "msks = map snd ?ps"
    by (simp_all add: unzip2_Inr)
  have "zip imgs msks = ?ps"
    unfolding im mk by (simp add: zip_map_fst_snd)
  with c have "\<forall>p\<in>set ?ps. stem (fst p) = stem (snd p)"
    by (simp add: check_names_Inr)
  then show thesis
    using ne i m im mk shuffle_mset [of ?z "rng s"] by (intro that [of ?ps]) simp_all
qed

lemma init_fields:
  assumes "RailDataset_init E a s = (Inr ds, s')"
  shows "batch_size ds = arg_batch_size a" "res ds = arg_res a"
    "transforms ds = arg_transforms a" "bg_dir_pth ds = arg_bg_dir_pth a"
    "tfs_prb ds = (case arg_tfs_prb a of None \<Rightarrow> default_tfs_prb | Some r \<Rightarrow> r)"
    "1 \<le> fst (res ds)" "1 \<le> snd (res ds)"
  using assms
  by (auto simp: RailDataset_init_def Let_def split: sum.splits prod.splits if_splits)

lemma init_same_length:
  assumes "RailDataset_init E a s = (Inr ds, s')"
  shows "length (img_pths ds) = length (msk_pths ds)" "img_pths ds \<noteq> []"
  using init_success [OF assms] by (metis length_map, metis map_is_Nil_conv)


lemma len_Inr: "batch_size ds \<noteq> 0 \<Longrightarrow>
   RailDataset_len ds = Inr (int (length (img_pths ds)) div batch_size ds)"
  by (simp add: RailDataset_len_def py_floordiv_def)


lemma set_py_range: "set (py_range a b) = {i. a \<le> i \<and> i < b}"
  by (auto simp: py_range_def)

subsection \<open>The example corpus\<close>

lemma ex_init_fst: "fst (RailDataset_init ex_env ex_args ex_state) = Inr ex_dataset"
  by code_simp

lemma ex_init: "RailDataset_init ex_env ex_args ex_state = (Inr ex_dataset, ex_state1)"
  using ex_init_fst by (simp add: ex_state1_def prod_eq_iff)

subsection \<open>The number of batches\<close>

text \<open>
  Claim C6. For every constructed data set, \<open>length()\<close> is the floor of the corpus size
  (the number of stored sample pairs) divided by the batch size; a trailing partial batch
  is dropped and never padded: \<open>length() * batch_size \<le> corpus_size < (length() + 1) *
  batch_size\<close> for a batch size of at least one. The quotient needs a batch size other
  than zero.
\<close>

theorem len_is_floor:
  assumes "RailDataset_init E a s = (Inr ds, s')" and "batch_size ds \<noteq> 0"
  shows "RailDataset_len ds =
           Inr \<lfloor>real (length (zip (img_pths ds) (msk_pths ds))) / real_of_int (batch_size ds)\<rfloor>
       \<and> (1 \<le> batch_size ds \<longrightarrow>
            (\<exists>l. RailDataset_len ds = Inr l
               \<and> l * batch_size ds \<le> int (length (zip (img_pths ds) (msk_pths ds)))
               \<and> int (length (zip (img_pths ds) (msk_pths ds))) < (l + 1) * batch_size ds))"
proof -
  let ?n = "int (length (img_pths ds))" and ?bs = "batch_size ds"
  have n: "length (zip (img_pths ds) (msk_pths ds)) = length (img_pths ds)"
    using init_same_length(1) [OF assms(1)] by simp
  have "\<lfloor>real_of_int ?n / real_of_int ?bs\<rfloor> = ?n div ?bs"
    by (rule floor_divide_of_int_eq)
  then have first: "RailDataset_len ds = Inr \<lfloor>real (length (img_pths ds)) / real_of_int ?bs\<rfloor>"
    using len_Inr [OF assms(2)] by simp
  have second: "(?n div ?bs) * ?bs \<le> ?n \<and> ?n < (?n div ?bs + 1) * ?bs" if "1 \<le> ?bs"
  proof -
    have eq: "?n div ?bs * ?bs + ?n mod ?bs = ?n"
      by (rule div_mult_mod_eq)
    have expand: "(?n div ?bs + 1) * ?bs = ?n div ?bs * ?bs + ?bs"
      by (simp add: distrib_right)
    have "0 \<le> ?n mod ?bs" "?n mod ?bs < ?bs"
      using that by simp_all
    with eq expand show ?thesis
      by linarith
  qed
  show ?thesis
    unfolding n
  proof (intro conjI impI)
    show "RailDataset_len ds = Inr \<lfloor>real (length (img_pths ds)) / real_of_int ?bs\<rfloor>"
      by (rule first)
    assume "1 \<le> ?bs"
    from second [OF this] len_Inr [OF assms(2)]
    show "\<exists>l. RailDataset_len ds = Inr l \<and> l * ?bs \<le> ?n \<and> ?n < (l + 1) * ?bs"
      by blast
  qed
qed

theorem len_is_floor_witness:
  "RailDataset_init ex_env ex_args ex_state = (Inr ex_dataset, ex_state1)
   \<and> batch_size ex_dataset \<noteq> 0 \<and> 1 \<le> batch_size ex_dataset
   \<and> RailDataset_len ex_dataset = Inr 2"
proof -
  have bs: "batch_size ex_dataset \<noteq> 0"
    by (simp add: ex_dataset_def)
  show ?thesis
    using len_is_floor [OF ex_init bs] ex_init by (simp add: ex_dataset_def)
qed

subsection \<open>The file indices of a batch\<close>

lemma py_index_in_range:
  "0 \<le> i \<Longrightarrow> i < int (length xs) \<Longrightarrow> py_index xs i = Inr (xs ! nat i)"
  by (simp add: py_index_def)

lemma last_index_bound:
  fixes n bs b :: int
  assumes "1 \<le> bs" and "0 \<le> b" and "b < n div bs"
  shows "b + bs - 1 < n"
proof -
  let ?q = "n div bs"
  have q: "1 \<le> ?q"
    using assms by linarith
  have "0 \<le> (?q - 1) * (bs - 1)"
    using q assms(1) by (intro mult_nonneg_nonneg) simp_all
  then have "?q + bs - 1 \<le> ?q * bs"
    by (simp add: algebra_simps)
  moreover have "?q * bs + n mod bs = n"
    by (rule div_mult_mod_eq)
  moreover have "0 \<le> n mod bs"
    using assms(1) by simp
  ultimately show ?thesis
    using assms(3) by linarith
qed

text \<open>
  Claim C4. For a constructed data set with \<open>1 \<le> batch_size \<le> corpus_size\<close> and a batch
  index \<open>b\<close> with \<open>0 \<le> b < length()\<close>, every file index \<open>i\<close> that \<open>get_batch(b)\<close> runs
  through, from \<open>b\<close> to \<open>b + batch_size - 1\<close>, is below the corpus size: reading the image
  path and the mask path at \<open>i\<close> returns the entry at \<open>i\<close> and raises no \<^verbatim>\<open>IndexError\<close>.
\<close>

theorem batch_indices_in_bounds:
  assumes "RailDataset_init E a s = (Inr ds, s')"
    and "1 \<le> batch_size ds" and "batch_size ds \<le> int (length (img_pths ds))"
    and "RailDataset_len ds = Inr l" and "0 \<le> b" and "b < l"
    and "i \<in> set (py_range b (b + batch_size ds))"
  shows "0 \<le> i \<and> i < int (length (img_pths ds)) \<and> i < int (length (msk_pths ds))
       \<and> py_index (img_pths ds) i = Inr (img_pths ds ! nat i)
       \<and> py_index (msk_pths ds) i = Inr (msk_pths ds ! nat i)"
proof -
  have l: "l = int (length (img_pths ds)) div batch_size ds"
    using assms(2,4) len_Inr [of ds] by simp
  have "b + batch_size ds - 1 < int (length (img_pths ds))"
    using assms(2,5,6) unfolding l by (rule last_index_bound)
  moreover have "b \<le> i" "i < b + batch_size ds"
    using assms(7) by (simp_all add: set_py_range)
  ultimately have i: "0 \<le> i" "i < int (length (img_pths ds))"
    using assms(5) by linarith+
  moreover have "length (img_pths ds) = length (msk_pths ds)"
    by (rule init_same_length(1) [OF assms(1)])
  ultimately show ?thesis
    by (simp add: py_index_in_range)
qed

theorem batch_indices_in_bounds_witness:
  "RailDataset_init ex_env ex_args ex_state = (Inr ex_dataset, ex_state1)
   \<and> 1 \<le> batch_size ex_dataset \<and> batch_size ex_dataset \<le> int (length (img_pths ex_dataset))
   \<and> RailDataset_len ex_dataset = Inr 2 \<and> (0::int) \<le> 1 \<and> (1::int) < 2
   \<and> 2 \<in> set (py_range 1 (1 + batch_size ex_dataset))
   \<and> py_index (img_pths ex_dataset) 2 = Inr ''i/a.png''
   \<and> py_index (msk_pths ex_dataset) 2 = Inr ''m/a.tif''"
proof -
  have h: "1 \<le> batch_size ex_dataset" "batch_size ex_dataset \<le> int (length (img_pths ex_dataset))"
    "RailDataset_len ex_dataset = Inr 2" "(0::int) \<le> 1" "(1::int) < 2"
    "2 \<in> set (py_range 1 (1 + batch_size ex_dataset))"
    by (simp_all add: ex_dataset_def RailDataset_len_def py_floordiv_def py_range_def)
  show ?thesis
    using batch_indices_in_bounds [OF ex_init h] h ex_init by (simp add: ex_dataset_def)
qed




subsection \<open>The transform probabilities in the heap\<close>

lemma set_defaults_Some:
  "heap s r = Some d \<Longrightarrow>
     set_defaults r kvs s = Inr (s\<lparr>heap := (heap s)(r \<mapsto> map_of kvs ++ d)\<rparr>)"
proof (induction kvs arbitrary: s d)
  case Nil
  then have "(heap s)(r \<mapsto> d) = heap s"
    by (simp add: map_upd_triv)
  then show ?case by simp
next
  case (Cons kv kvs)
  obtain k v where kv: "kv = (k, v)"
    by (cases kv)
  show ?case
  proof (cases "k \<in> dom d")
    case True
    have eq: "map_of (kv # kvs) ++ d = map_of kvs ++ d"
      using True by (auto simp: kv map_add_def fun_eq_iff split: option.splits)
    have "set_if_absent r k v s = Inr s"
      using True Cons.prems by (simp add: set_if_absent_def)
    then have "set_defaults r (kv # kvs) s = set_defaults r kvs s"
      by (simp add: kv)
    also have "\<dots> = Inr (s\<lparr>heap := (heap s)(r \<mapsto> map_of kvs ++ d)\<rparr>)"
      by (rule Cons.IH [OF Cons.prems])
    finally show ?thesis
      by (simp only: eq)
  next
    case False
    let ?s1 = "s\<lparr>heap := (heap s)(r \<mapsto> d(k \<mapsto> v))\<rparr>"
    have eq: "map_of (kv # kvs) ++ d = map_of kvs ++ d(k \<mapsto> v)"
      using False by (auto simp: kv map_add_def fun_eq_iff split: option.splits)
    have s1: "heap ?s1 r = Some (d(k \<mapsto> v))"
      by simp
    have upd: "?s1\<lparr>heap := (heap ?s1)(r \<mapsto> map_of kvs ++ d(k \<mapsto> v))\<rparr>
                = s\<lparr>heap := (heap s)(r \<mapsto> map_of kvs ++ d(k \<mapsto> v))\<rparr>"
      by simp
    have "set_if_absent r k v s = Inr ?s1"
      using False Cons.prems by (simp add: set_if_absent_def)
    then have "set_defaults r (kv # kvs) s = set_defaults r kvs ?s1"
      by (simp add: kv)
    also have "\<dots> = Inr (?s1\<lparr>heap := (heap ?s1)(r \<mapsto> map_of kvs ++ d(k \<mapsto> v))\<rparr>)"
      by (rule Cons.IH [OF s1])
    finally show ?thesis
      by (simp only: eq upd)
  qed
qed

lemma set_defaults_None:
  "heap s r = None \<Longrightarrow> kvs \<noteq> [] \<Longrightarrow> set_defaults r kvs s = Inl TypeError"
  by (cases kvs) (auto simp: set_if_absent_def)

lemma init_heap:
  assumes "RailDataset_init E a s = (Inr ds, s')"
  obtains d where "heap s (tfs_prb ds) = Some d"
    "heap s' = (heap s)(tfs_prb ds \<mapsto> map_of tfs_defaults ++ d)"
proof -
  let ?r = "tfs_prb ds"
  from assms obtain g where sd: "set_defaults ?r tfs_defaults (s\<lparr>rng := g\<rparr>) = Inr s'"
    by (auto simp: RailDataset_init_def Let_def split: sum.splits prod.splits if_splits)
  have ne: "tfs_defaults \<noteq> []"
    by (simp add: tfs_defaults_def)
  show thesis
  proof (cases "heap s ?r")
    case None
    then have "set_defaults ?r tfs_defaults (s\<lparr>rng := g\<rparr>) = Inl TypeError"
      using ne by (intro set_defaults_None) simp_all
    with sd show ?thesis by simp
  next
    case (Some d)
    then have "heap (s\<lparr>rng := g\<rparr>) ?r = Some d"
      by simp
    from set_defaults_Some [OF this, of tfs_defaults] sd
    have "heap s' = (heap s)(?r \<mapsto> map_of tfs_defaults ++ d)"
      by auto
    with Some show ?thesis
      by (rule that)
  qed
qed

lemma tfs_defaults_lookup:
  "map_of tfs_defaults k =
     (if k = ''HorizontalFlip'' then Some (Prob 0.5)
      else if k = ''RandomBrightnessContrast'' then Some (Prob 0.2)
      else if k = ''Rotate'' then Some (Prob 0.9)
      else if k = ''RotateLimit'' then Some (Limit (- 2.5) 2.5)
      else if k = ''MotionBlur'' then Some (Prob 0.1)
      else if k = ''BackgroundSwap'' then Some (Prob 0.9)
      else None)"
  by (simp add: tfs_defaults_def)

text \<open>
  Claim C8. When the caller supplies a transform-probability mapping, the mapping stored
  after construction gives every key the caller supplied its original value, recognised or
  not, gives each of the six recognised keys that the caller left out its default
  (\<open>HorizontalFlip\<close> 0.5, \<open>RandomBrightnessContrast\<close> 0.2, \<open>Rotate\<close> 0.9, \<open>RotateLimit\<close>
  (-2.5, 2.5), \<open>MotionBlur\<close> 0.1, \<open>BackgroundSwap\<close> 0.9), and has no other key.
\<close>

theorem defaults_merged:
  assumes "RailDataset_init E a s = (Inr ds, s')"
    and "arg_tfs_prb a = Some r" and "heap s r = Some d"
  shows "\<exists>d'. heap s' (tfs_prb ds) = Some d'
     \<and> (\<forall>k. d' k =
           (case d k of
              Some v \<Rightarrow> Some v
            | None \<Rightarrow>
                if k = ''HorizontalFlip'' then Some (Prob 0.5)
                else if k = ''RandomBrightnessContrast'' then Some (Prob 0.2)
                else if k = ''Rotate'' then Some (Prob 0.9)
                else if k = ''RotateLimit'' then Some (Limit (- 2.5) 2.5)
                else if k = ''MotionBlur'' then Some (Prob 0.1)
                else if k = ''BackgroundSwap'' then Some (Prob 0.9)
                else None))"
proof -
  have r: "tfs_prb ds = r"
    using init_fields(5) [OF assms(1)] assms(2) by simp
  from init_heap [OF assms(1)] assms(3)
  have "heap s' r = Some (map_of tfs_defaults ++ d)"
    unfolding r by (metis fun_upd_same option.inject)
  moreover have "(map_of tfs_defaults ++ d) k = (case d k of Some v \<Rightarrow> Some v | None \<Rightarrow> map_of tfs_defaults k)" for k
    by (simp add: map_add_def)
  ultimately show ?thesis
    unfolding r by (simp only: tfs_defaults_lookup) blast
qed


lemma ex_caller_init_fst:
  "fst (RailDataset_init ex_env ex_caller_args ex_caller_state) = Inr (ex_dataset\<lparr>tfs_prb := 1\<rparr>)"
  by code_simp

lemma ex_caller_init:
  "RailDataset_init ex_env ex_caller_args ex_caller_state
     = (Inr (ex_dataset\<lparr>tfs_prb := 1\<rparr>), ex_caller_state1)"
  using ex_caller_init_fst by (simp add: ex_caller_state1_def prod_eq_iff)

theorem defaults_merged_witness:
  "RailDataset_init ex_env ex_caller_args ex_caller_state
     = (Inr (ex_dataset\<lparr>tfs_prb := 1\<rparr>), ex_caller_state1)
   \<and> arg_tfs_prb ex_caller_args = Some 1
   \<and> heap ex_caller_state 1 = Some ex_caller_dict
   \<and> (\<exists>d'. heap ex_caller_state1 1 = Some d'
          \<and> d' ''Rotate'' = Some (Prob 0)
          \<and> d' ''Mixup'' = Some (Prob 1)
          \<and> d' ''MotionBlur'' = Some (Prob 0.1)
          \<and> d' ''RotateLimit'' = Some (Limit (- 2.5) 2.5)
          \<and> d' ''Cutout'' = None)"
proof -
  have a: "arg_tfs_prb ex_caller_args = Some 1"
    by (simp add: ex_caller_args_def)
  have h: "heap ex_caller_state 1 = Some ex_caller_dict"
    by (simp add: ex_caller_state_def)
  from defaults_merged [OF ex_caller_init a h]
  obtain d' where d': "heap ex_caller_state1 1 = Some d'"
    and k: "\<And>k. d' k =
           (case ex_caller_dict k of
              Some v \<Rightarrow> Some v
            | None \<Rightarrow>
                if k = ''HorizontalFlip'' then Some (Prob 0.5)
                else if k = ''RandomBrightnessContrast'' then Some (Prob 0.2)
                else if k = ''Rotate'' then Some (Prob 0.9)
                else if k = ''RotateLimit'' then Some (Limit (- 2.5) 2.5)
                else if k = ''MotionBlur'' then Some (Prob 0.1)
                else if k = ''BackgroundSwap'' then Some (Prob 0.9)
                else None)"
    by auto
  have "d' ''Rotate'' = Some (Prob 0)" "d' ''Mixup'' = Some (Prob 1)"
    "d' ''MotionBlur'' = Some (Prob 0.1)" "d' ''RotateLimit'' = Some (Limit (- 2.5) 2.5)"
    "d' ''Cutout'' = None"
    unfolding k by (simp_all add: ex_caller_dict_def)
  with d' ex_caller_init a h show ?thesis
    by blast
qed

text \<open>
  Claim C10. The constructor stores the reference of the caller's dictionary, not a copy,
  and writes the missing default keys into that very object: after construction the object
  at that reference holds the merged mapping, it differs from what the caller passed
  exactly when one of the six keys was missing, and no other object has changed. A call
  that leaves the argument out stores the reference of the one default dictionary, so any
  two data sets constructed that way hold the same reference.
\<close>

theorem tfs_prb_shared_by_reference:
  assumes "RailDataset_init E a s = (Inr ds, s')"
  shows "(\<forall>r. arg_tfs_prb a = Some r \<longrightarrow> tfs_prb ds = r)
       \<and> (arg_tfs_prb a = None \<longrightarrow> tfs_prb ds = default_tfs_prb)
       \<and> (\<exists>d. heap s (tfs_prb ds) = Some d
              \<and> heap s' (tfs_prb ds) = Some (map_of tfs_defaults ++ d)
              \<and> (heap s' (tfs_prb ds) \<noteq> heap s (tfs_prb ds)
                   \<longleftrightarrow> \<not> fst ` set tfs_defaults \<subseteq> dom d))
       \<and> (\<forall>r'. r' \<noteq> tfs_prb ds \<longrightarrow> heap s' r' = heap s r')
       \<and> (\<forall>E2 a2 s2 ds2 s2'.
            RailDataset_init E2 a2 s2 = (Inr ds2, s2')
              \<and> arg_tfs_prb a = None \<and> arg_tfs_prb a2 = None
            \<longrightarrow> tfs_prb ds2 = tfs_prb ds)"
proof (intro conjI allI impI)
  show "tfs_prb ds = r" if "arg_tfs_prb a = Some r" for r
    using init_fields(5) [OF assms] that by simp
  show "tfs_prb ds = default_tfs_prb" if "arg_tfs_prb a = None"
    using init_fields(5) [OF assms] that by simp
  show "tfs_prb ds2 = tfs_prb ds"
    if "RailDataset_init E2 a2 s2 = (Inr ds2, s2') \<and> arg_tfs_prb a = None \<and> arg_tfs_prb a2 = None"
    for E2 a2 s2 ds2 s2'
    using init_fields(5) [OF assms] init_fields(5) [of E2 a2 s2 ds2 s2'] that by simp
  from init_heap [OF assms] obtain d where
    d: "heap s (tfs_prb ds) = Some d" and
    h: "heap s' = (heap s)(tfs_prb ds \<mapsto> map_of tfs_defaults ++ d)"
    by blast
  show "heap s' r' = heap s r'" if "r' \<noteq> tfs_prb ds" for r'
    using that by (simp add: h)
  have "map_of tfs_defaults ++ d = d \<longleftrightarrow> fst ` set tfs_defaults \<subseteq> dom d"
  proof
    assume eq: "map_of tfs_defaults ++ d = d"
    show "fst ` set tfs_defaults \<subseteq> dom d"
    proof
      fix k assume "k \<in> fst ` set tfs_defaults"
      then have "k \<in> dom (map_of tfs_defaults)"
        by (simp add: dom_map_of_conv_image_fst)
      then have "k \<in> dom (map_of tfs_defaults ++ d)"
        by simp
      then show "k \<in> dom d"
        by (simp only: eq)
    qed
  next
    assume sub: "fst ` set tfs_defaults \<subseteq> dom d"
    show "map_of tfs_defaults ++ d = d"
    proof
      fix k
      show "(map_of tfs_defaults ++ d) k = d k"
      proof (cases "d k")
        case None
        then have "k \<notin> fst ` set tfs_defaults"
          using sub by auto
        then have "map_of tfs_defaults k = None"
          by (simp add: map_of_eq_None_iff)
        with None show ?thesis
          by (simp add: map_add_def)
      next
        case (Some v)
        then show ?thesis
          by (simp add: map_add_def)
      qed
    qed
  qed
  then show "\<exists>d. heap s (tfs_prb ds) = Some d
              \<and> heap s' (tfs_prb ds) = Some (map_of tfs_defaults ++ d)
              \<and> (heap s' (tfs_prb ds) \<noteq> heap s (tfs_prb ds)
                   \<longleftrightarrow> \<not> fst ` set tfs_defaults \<subseteq> dom d)"
    using d by (intro exI [of _ d]) (simp add: h)
qed

theorem tfs_prb_shared_by_reference_witness:
  "RailDataset_init ex_env ex_args ex_state = (Inr ex_dataset, ex_state1)
   \<and> arg_tfs_prb ex_args = None
   \<and> tfs_prb ex_dataset = default_tfs_prb
   \<and> heap ex_state default_tfs_prb = Some Map.empty
   \<and> heap ex_state1 default_tfs_prb = Some (map_of tfs_defaults ++ Map.empty)
   \<and> heap ex_state1 default_tfs_prb \<noteq> heap ex_state default_tfs_prb
   \<and> RailDataset_init ex_env ex_caller_args ex_caller_state
       = (Inr (ex_dataset\<lparr>tfs_prb := 1\<rparr>), ex_caller_state1)
   \<and> arg_tfs_prb ex_caller_args = Some 1
   \<and> tfs_prb (ex_dataset\<lparr>tfs_prb := 1\<rparr>) = 1
   \<and> heap ex_caller_state1 1 = Some (map_of tfs_defaults ++ ex_caller_dict)
   \<and> heap ex_caller_state1 1 \<noteq> heap ex_caller_state 1
   \<and> heap ex_caller_state1 default_tfs_prb = heap ex_caller_state default_tfs_prb"
proof -
  have a: "arg_tfs_prb ex_args = None" "arg_tfs_prb ex_caller_args = Some 1"
    by (simp_all add: ex_args_def ex_caller_args_def default_args_def)
  have h: "heap ex_state default_tfs_prb = Some Map.empty"
    "heap ex_caller_state 1 = Some ex_caller_dict"
    "heap ex_caller_state default_tfs_prb = Some Map.empty"
    by (simp_all add: ex_state_def ex_caller_state_def state_at_import_def default_tfs_prb_def)
  have r: "tfs_prb ex_dataset = default_tfs_prb" "tfs_prb (ex_dataset\<lparr>tfs_prb := 1\<rparr>) = 1"
    "default_tfs_prb \<noteq> 1"
    by (simp_all add: ex_dataset_def default_tfs_prb_def)
  have missing: "\<not> fst ` set tfs_defaults \<subseteq> dom Map.empty"
    "\<not> fst ` set tfs_defaults \<subseteq> dom ex_caller_dict"
    by (auto simp: tfs_defaults_def ex_caller_dict_def)
  from tfs_prb_shared_by_reference [OF ex_init] h(1) missing(1)
  have 1: "heap ex_state1 default_tfs_prb = Some (map_of tfs_defaults ++ Map.empty)"
    "heap ex_state1 default_tfs_prb \<noteq> heap ex_state default_tfs_prb"
    unfolding r by auto
  from tfs_prb_shared_by_reference [OF ex_caller_init] h(2) missing(2) r(3)
  have 2: "heap ex_caller_state1 1 = Some (map_of tfs_defaults ++ ex_caller_dict)"
    "heap ex_caller_state1 1 \<noteq> heap ex_caller_state 1"
    "heap ex_caller_state1 default_tfs_prb = heap ex_caller_state default_tfs_prb"
    unfolding r by auto
  from 1 2 a h r ex_init ex_caller_init show ?thesis
    by blast
qed

subsection \<open>Alignment of images and masks\<close>

lemma paths_aligned_pairs:
  assumes "img_pths ds = map fst ps" and "msk_pths ds = map snd ps"
  shows "paths_aligned ds \<longleftrightarrow> (\<forall>p\<in>set ps. stem (fst p) = stem (snd p))"
  using assms by (simp add: paths_aligned_def all_set_conv_all_nth)

lemma init_aligned:
  assumes "RailDataset_init E a s = (Inr ds, s')"
  shows "paths_aligned ds" and "img_pths ds \<noteq> []"
proof -
  from init_success [OF assms] obtain ps where
    ps: "ps \<noteq> []" "img_pths ds = map fst ps" "msk_pths ds = map snd ps"
      "\<forall>p\<in>set ps. stem (fst p) = stem (snd p)"
    by blast
  show "paths_aligned ds"
    using ps(4) by (simp add: paths_aligned_pairs [OF ps(2,3)])
  show "img_pths ds \<noteq> []"
    using ps(1,2) by simp
qed

lemma on_epoch_end_aligned:
  assumes al: "paths_aligned ds" and ne: "img_pths ds \<noteq> []"
  obtains ds' s' where "on_epoch_end ds s = (Inr ds', s')"
    "paths_aligned ds'" "img_pths ds' \<noteq> []"
    "mset (zip (img_pths ds') (msk_pths ds')) = mset (zip (img_pths ds) (msk_pths ds))"
    "ds' = ds\<lparr>img_pths := img_pths ds', msk_pths := msk_pths ds'\<rparr>"
proof -
  let ?z = "zip (img_pths ds) (msk_pths ds)"
  let ?ps = "fst (shuffle ?z (rng s))"
  let ?ds' = "ds\<lparr>img_pths := map fst ?ps, msk_pths := map snd ?ps\<rparr>"
  have len: "length (img_pths ds) = length (msk_pths ds)"
    using al by (simp add: paths_aligned_def)
  have z: "img_pths ds = map fst ?z" "msk_pths ds = map snd ?z"
    using len by simp_all
  have "?z \<noteq> []"
    using ne z(1) by (metis list.map_disc_iff)
  then have nonempty: "?ps \<noteq> []"
    using shuffle_length [of ?z "rng s"] by (metis length_0_conv)
  then have run: "on_epoch_end ds s = (Inr ?ds', s\<lparr>rng := snd (shuffle ?z (rng s))\<rparr>)"
    by (simp add: on_epoch_end_def Let_def unzip2_def)
  have "\<forall>p\<in>set ?z. stem (fst p) = stem (snd p)"
    using al by (simp add: paths_aligned_pairs [OF z])
  then have "\<forall>p\<in>set ?ps. stem (fst p) = stem (snd p)"
    by (simp add: shuffle_set)
  then have al': "paths_aligned ?ds'"
    by (simp add: paths_aligned_pairs [of ?ds' ?ps])
  have "mset (zip (img_pths ?ds') (msk_pths ?ds')) = mset ?z"
    by (simp add: zip_map_fst_snd shuffle_mset)
  with run al' nonempty show thesis
    by (intro that [of ?ds']) simp_all
qed

text \<open>
  Claim C9. Every constructed data set has its image paths and mask paths aligned: the
  two tuples have equal length and the stems agree at every position. \<open>on_epoch_end()\<close>
  keeps this: called on an aligned, non-empty data set (every constructed one is) it
  succeeds, the result is aligned and non-empty again, its multiset of (image path, mask
  path) pairs is the one before the call, and no other field changes.
\<close>

theorem aligned_pairs_invariant:
  "(RailDataset_init E a s = (Inr ds, s1) \<longrightarrow> paths_aligned ds \<and> img_pths ds \<noteq> [])
   \<and> (paths_aligned ds \<and> img_pths ds \<noteq> [] \<longrightarrow>
        (\<exists>ds' s3. on_epoch_end ds s2 = (Inr ds', s3)
           \<and> paths_aligned ds' \<and> img_pths ds' \<noteq> []
           \<and> mset (zip (img_pths ds') (msk_pths ds')) = mset (zip (img_pths ds) (msk_pths ds))
           \<and> ds' = ds\<lparr>img_pths := img_pths ds', msk_pths := msk_pths ds'\<rparr>))"
proof (intro conjI impI)
  assume "RailDataset_init E a s = (Inr ds, s1)"
  then show "paths_aligned ds" "img_pths ds \<noteq> []"
    by (rule init_aligned)+
next
  assume "paths_aligned ds \<and> img_pths ds \<noteq> []"
  then have "paths_aligned ds" "img_pths ds \<noteq> []"
    by simp_all
  from on_epoch_end_aligned [OF this, of s2]
  show "\<exists>ds' s3. on_epoch_end ds s2 = (Inr ds', s3)
           \<and> paths_aligned ds' \<and> img_pths ds' \<noteq> []
           \<and> mset (zip (img_pths ds') (msk_pths ds')) = mset (zip (img_pths ds) (msk_pths ds))
           \<and> ds' = ds\<lparr>img_pths := img_pths ds', msk_pths := msk_pths ds'\<rparr>"
    by metis
qed

theorem aligned_pairs_invariant_witness:
  "RailDataset_init ex_env ex_args ex_state = (Inr ex_dataset, ex_state1)
   \<and> paths_aligned ex_dataset \<and> img_pths ex_dataset \<noteq> []
   \<and> (\<exists>ds' s3. on_epoch_end ex_dataset (ex_state1\<lparr>rng := [2, 2, 0]\<rparr>) = (Inr ds', s3)
         \<and> paths_aligned ds'
         \<and> mset (zip (img_pths ds') (msk_pths ds'))
             = mset (zip (img_pths ex_dataset) (msk_pths ex_dataset)))"
  using aligned_pairs_invariant
          [of ex_env ex_args ex_state ex_dataset ex_state1 "ex_state1\<lparr>rng := [2, 2, 0]\<rparr>"]
        ex_init
  by blast

lemma ex_epoch_end:
  "fst (on_epoch_end ex_dataset (ex_state1\<lparr>rng := [2, 2, 0]\<rparr>))
     = Inr (ex_dataset\<lparr>img_pths := [''i/d.png'', ''i/c.png'', ''i/b.png'', ''i/a.png''],
                       msk_pths := [''m/d.tif'', ''m/c.tif'', ''m/b.tif'', ''m/a.tif'']\<rparr>)"
  by (simp add: on_epoch_end_def Let_def shuffle_def randbelow_def unzip2_def ex_dataset_def
        upt_rec [of _ 4] upt_rec [of _ 3] upt_rec [of _ 2])

subsection \<open>Unequal numbers of images and masks\<close>

lemma init_never_amount_mismatch:
  "fst (RailDataset_init E a s) \<noteq> Inl (ValueError (AmountMismatch n m))"
proof -
  have "check_names ps \<noteq> Inl (ValueError (AmountMismatch n m))" for ps
    by (induction ps rule: check_names.induct) auto
  moreover have "set_defaults r kvs s0 \<noteq> Inl (ValueError (AmountMismatch n m))" for r kvs s0
    by (induction r kvs s0 rule: set_defaults.induct)
       (auto simp: set_if_absent_def split: option.splits sum.splits)
  ultimately show ?thesis
    by (auto simp: RailDataset_init_def Let_def unzip2_def split: sum.splits prod.splits)
qed

text \<open>
  Claim C2 says that construction fails whenever the number of discovered images differs
  from the number of discovered masks. The constructor zips the two sorted lists before it
  compares their lengths, which cuts the longer one to the length of the shorter; the
  comparison then always finds equal lengths. Here three images and two masks are
  discovered and an object with two pairs is constructed.
\<close>

theorem count_mismatch_accepted:
  "length (collect_paths (ex_env\<lparr>glob := ex_glob_mismatch\<rparr>) ''i'' ''png'') = 3
   \<and> length (collect_paths (ex_env\<lparr>glob := ex_glob_mismatch\<rparr>) ''m'' ''tif'') = 2
   \<and> fst (RailDataset_init (ex_env\<lparr>glob := ex_glob_mismatch\<rparr>) ex_args ex_state)
       = Inr (ex_dataset\<lparr>img_pths := [''i/a.png'', ''i/b.png''],
                         msk_pths := [''m/a.tif'', ''m/b.tif'']\<rparr>)"
  by code_simp

subsection \<open>The check of the mask values\<close>







subsection \<open>Augmentation without a background directory\<close>

lemma init_depends_on_glob:
  "glob E' = glob E \<Longrightarrow> RailDataset_init E' a s = RailDataset_init E a s"
  by (simp add: RailDataset_init_def collect_paths_def)









subsection \<open>The mask tensor of a batch\<close>

















end
